theory Spec2Isabelle
  imports Main "HOL-Library.Sublist" "HOL-Library.Product_Lexorder" "HOL-Library.Multiset"
begin

section \<open>Python strings\<close>

text \<open>
  Python's \<open>sub in s\<close> on strings: \<open>sub\<close> occurs in \<open>s\<close> as a contiguous run.
\<close>

fun str_in :: "string \<Rightarrow> string \<Rightarrow> bool" where
  "str_in sub [] = (sub = [])"
| "str_in sub (c # cs) = (prefix sub (c # cs) \<or> str_in sub cs)"

text \<open>
  \<open>s.find(sub)\<close>: the lowest position where \<open>sub\<close> starts, or \<open>-1\<close>.
\<close>

fun find_from :: "string \<Rightarrow> string \<Rightarrow> nat \<Rightarrow> int" where
  "find_from sub [] i = (if sub = [] then int i else - 1)"
| "find_from sub (c # cs) i =
     (if prefix sub (c # cs) then int i else find_from sub cs (Suc i))"

definition str_find :: "string \<Rightarrow> string \<Rightarrow> int" where
  "str_find s sub = find_from sub s 0"

text \<open>
  \<open>s.replace(old, new)\<close>: the occurrences of \<open>old\<close> are found from the left, without
  overlap, and each is replaced. With an empty \<open>old\<close> Python puts \<open>new\<close> before every
  character and at the end.
\<close>

function str_replace :: "string \<Rightarrow> string \<Rightarrow> string \<Rightarrow> string" where
  "str_replace old new [] = (if old = [] then new else [])"
| "str_replace old new (c # cs) =
     (if old = [] then new @ c # str_replace old new cs
      else if prefix old (c # cs)
        then new @ str_replace old new (drop (length old) (c # cs))
      else c # str_replace old new cs)"
  by pat_completeness auto
termination
  by (relation "measure (\<lambda>(old, new, s). length s)") auto

text \<open>\<open>str(n)\<close> for a non-negative integer: its decimal digits.\<close>

definition digit_char :: "nat \<Rightarrow> char" where
  "digit_char d = char_of (48 + d)"

function str_nat :: "nat \<Rightarrow> string" where
  "str_nat n = (if n < 10 then [digit_char n] else str_nat (n div 10) @ [digit_char (n mod 10)])"
  by pat_completeness auto
termination
  by (relation "measure (\<lambda>n. n)") auto

section \<open>Errors\<close>

datatype error =
    BaseException string
  | PdfError
  | TypeError
  | IndexError
  | KeyError string
  | AttributeError
  | ValueError string
  | TransportError string
  | MalformedLiteral

section \<open>Page Locator\<close>

text \<open>
  The pipeline object and the files it reads: \<open>raw_data_path\<close> is the constructor's
  argument, \<open>listdir\<close> the directory listing (\<open>None\<close> when the directory is absent) and
  \<open>pdf_open\<close> the texts of a document's pages as \<open>page.extract_text()\<close> gives them
  (\<open>None\<close> when the document cannot be read).
\<close>

record pipeline =
  raw_data_path :: string
  listdir :: "string \<Rightarrow> string list option"
  pdf_open :: "string \<Rightarrow> string list option"

definition backslash :: string where
  "backslash = [char_of (92::nat)]"

text \<open>
  The path \<open>glob\<close> returns for a listed file: the pattern
  \<open>f'{self.raw_data_path}\\{simbol}\\{file}'\<close> itself.
\<close>

definition full_path :: "pipeline \<Rightarrow> string \<Rightarrow> string \<Rightarrow> string" where
  "full_path P smb file = raw_data_path P @ backslash @ smb @ backslash @ file"

definition list_all_files :: "pipeline \<Rightarrow> string \<Rightarrow> error + string list" where
  "list_all_files P smb =
     (case listdir P (raw_data_path P @ smb) of
        None \<Rightarrow> Inl (BaseException
          ''Error on listing files: Simbol not found! Simbols allowed REXP or DIPD'')
      | Some files \<Rightarrow> Inr (map (full_path P smb) files))"

record target =
  index :: "nat list"
  simbol :: "string list"
  file_name :: "string list"
  target_page :: "string list"

definition map_page_simbol :: "string \<Rightarrow> string option" where
  "map_page_simbol = map_of
     [(''REXP'', ''Consolidated Income Statements''),
      (''DIPD'', ''STATEMENT OF PROFIT OR LOSS'')]"

text \<open>
  The inner loop over the pages of one document. \<open>None in text\<close> raises a
  \<open>TypeError\<close>, which is what a symbol without a marker meets at its first page.
\<close>

fun scan_pages :: "string \<Rightarrow> string \<Rightarrow> string list \<Rightarrow> target \<Rightarrow> error + target" where
  "scan_pages smb financial_file [] t = Inr t"
| "scan_pages smb financial_file (page # rest) t =
     (case map_page_simbol smb of
        None \<Rightarrow> Inl TypeError
      | Some marker \<Rightarrow>
          scan_pages smb financial_file rest
            (if str_in marker page
             then t\<lparr>simbol := simbol t @ [smb],
                    file_name := file_name t @
                      [drop (nat (str_find financial_file smb + 5)) financial_file],
                    target_page := target_page t @ [page]\<rparr>
             else t))"

text \<open>The outer loop over the documents, with the running counter \<open>index\<close>.\<close>

fun scan_files :: "pipeline \<Rightarrow> string \<Rightarrow> string list \<Rightarrow> nat \<Rightarrow> target \<Rightarrow> error + target" where
  "scan_files P smb [] i t = Inr t"
| "scan_files P smb (financial_file # rest) i t =
     (case pdf_open P financial_file of
        None \<Rightarrow> Inl PdfError
      | Some pgs \<Rightarrow>
          (case scan_pages smb financial_file pgs t of
             Inl e \<Rightarrow> Inl e
           | Inr t' \<Rightarrow> scan_files P smb rest (Suc i) (t'\<lparr>index := index t' @ [i]\<rparr>)))"

definition empty_target :: target where
  "empty_target = \<lparr>index = [], simbol = [], file_name = [], target_page = []\<rparr>"

definition extract_pl_pages :: "pipeline \<Rightarrow> string \<Rightarrow> error + target" where
  "extract_pl_pages P smb =
     (case list_all_files P smb of
        Inl e \<Rightarrow> Inl e
      | Inr financial_files \<Rightarrow> scan_files P smb financial_files 0 empty_target)"

section \<open>Extraction Client\<close>

text \<open>
  One subscript \<open>value[index]\<close> with a non-negative index.
\<close>

definition subscript :: "'a list \<Rightarrow> nat \<Rightarrow> error + 'a" where
  "subscript xs i = (if i < length xs then Inr (xs ! i) else Inl IndexError)"

definition message_line :: "string \<Rightarrow> string \<Rightarrow> string" where
  "message_line key val =
     [char_of (10::nat)] @ replicate 20 (CHR '' '') @
     [CHR 0x22] @ key @ [CHR 0x22] @ '':'' @ [CHR 0x22] @ val @ [CHR 0x22] @ '',''"

text \<open>
  The payload of request number \<open>i\<close>: the four lists of the batch are read at position
  \<open>i\<close>, in the order of the dictionary's keys.
\<close>

definition build_message :: "target \<Rightarrow> nat \<Rightarrow> error + string" where
  "build_message pages i =
     (case subscript (index pages) i of Inl e \<Rightarrow> Inl e | Inr v0 \<Rightarrow>
     (case subscript (simbol pages) i of Inl e \<Rightarrow> Inl e | Inr v1 \<Rightarrow>
     (case subscript (file_name pages) i of Inl e \<Rightarrow> Inl e | Inr v2 \<Rightarrow>
     (case subscript (target_page pages) i of Inl e \<Rightarrow> Inl e | Inr v3 \<Rightarrow>
        Inr (''{'' @ [char_of (10::nat)] @
             message_line ''index'' (str_nat v0) @
             message_line ''simbol'' v1 @
             message_line ''file_name'' v2 @
             message_line ''target_page'' v3 @
             [char_of (10::nat)] @ ''}'')))))"

text \<open>
  The loop of \<open>llm_data_extraction\<close>. The LLM is a parameter: \<open>client\<close> answers a
  payload with the first text segment of the reply, or raises. The first component of
  the result is the list of the requests sent, in order.
\<close>

fun llm_loop ::
  "(string \<Rightarrow> error + string) \<Rightarrow> target \<Rightarrow> nat list \<Rightarrow> string list \<Rightarrow> string list
     \<Rightarrow> string list \<times> (error + string list)" where
  "llm_loop client pages [] sent responses = (sent, Inr responses)"
| "llm_loop client pages (i # rest) sent responses =
     (case build_message pages i of
        Inl e \<Rightarrow> (sent, Inl e)
      | Inr message \<Rightarrow>
          (case client message of
             Inl e \<Rightarrow> (sent @ [message], Inl e)
           | Inr text \<Rightarrow> llm_loop client pages rest (sent @ [message]) (responses @ [text])))"

definition llm_data_extraction ::
  "(string \<Rightarrow> error + string) \<Rightarrow> target \<Rightarrow> string list \<times> (error + string list)" where
  "llm_data_extraction client pages =
     llm_loop client pages [0..<length (index pages)] [] []"

section \<open>Response Parser\<close>

text \<open>
  \<open>data.replace('```','').replace('json','')\<close>.
\<close>

definition strip_fences :: "string \<Rightarrow> string" where
  "strip_fences data = str_replace ''json'' '''' (str_replace ''```'' '''' data)"

text \<open>
  The loop of \<open>parse_llm_extraction_response\<close>. \<open>ast.literal_eval\<close> is a parameter
  (\<open>Inl\<close> is the exception it raises). The first component of the result is what the
  call prints; an exception is printed about and raised again, which ends the loop.
\<close>

fun parse_loop ::
  "(string \<Rightarrow> error + 'v) \<Rightarrow> string list \<Rightarrow> 'v list \<Rightarrow> string list \<times> (error + 'v list)" where
  "parse_loop literal_eval [] datas = ([], Inr datas)"
| "parse_loop literal_eval (data # rest) datas =
     (let parsed = strip_fences data in
      case literal_eval parsed of
        Inl e \<Rightarrow> ([parsed], Inl e)
      | Inr v \<Rightarrow> parse_loop literal_eval rest (datas @ [v]))"

definition parse_llm_extraction_response ::
  "(string \<Rightarrow> error + 'v) \<Rightarrow> string list \<Rightarrow> string list \<times> (error + 'v list)" where
  "parse_llm_extraction_response literal_eval responses = parse_loop literal_eval responses []"

subsection \<open>A fragment of \<open>ast.literal_eval\<close>\<close>

text \<open>
  \<open>ast.literal_eval\<close> belongs to Python's library. For the concrete responses below
  it is modelled on a fragment of Python's literals: one dictionary display whose keys
  are string literals and whose values are string literals or decimal integers;
  string literals in single or double quotes with neither a backslash nor a line
  break inside; blanks, tabs and line feeds between the tokens; a comma after the last
  item allowed, as in Python; before the display blanks and tabs followed by empty
  lines, after it blanks and tabs followed by line feeds. A key given twice keeps its
  first position and its last value. On a text outside this fragment the model answers
  \<open>MalformedLiteral\<close>, which is right for prose and for JSON's \<open>true\<close>, \<open>false\<close>
  and \<open>null\<close>; Python accepts more literals than the fragment (floats, nested
  containers, escapes, adjacent strings), and no statement below evaluates the model
  on one of those.
\<close>

datatype atom = PyInt int | PyStr string

type_synonym py_dict = "(string \<times> atom) list"

definition is_digit :: "char \<Rightarrow> bool" where
  "is_digit c = (c \<in> set ''0123456789'')"

definition is_digit19 :: "char \<Rightarrow> bool" where
  "is_digit19 c = (c \<in> set ''123456789'')"

definition digit_val :: "char \<Rightarrow> nat" where
  "digit_val c = of_char c - 48"

definition is_blank :: "char \<Rightarrow> bool" where
  "is_blank c = (c = CHR '' '' \<or> c = CHR 0x09 \<or> c = CHR 0x0A)"

definition is_space_tab :: "char \<Rightarrow> bool" where
  "is_space_tab c = (c = CHR '' '' \<or> c = CHR 0x09)"

fun dict_set :: "py_dict \<Rightarrow> string \<Rightarrow> atom \<Rightarrow> py_dict" where
  "dict_set [] k v = [(k, v)]"
| "dict_set ((k', v') # d) k v = (if k' = k then (k, v) # d else (k', v') # dict_set d k v)"

fun str_body :: "char \<Rightarrow> string \<Rightarrow> (string \<times> string) option" where
  "str_body q [] = None"
| "str_body q (c # cs) =
     (if c = q then Some ([], cs)
      else if c = CHR 0x5C \<or> c = CHR 0x0A then None
      else map_option (\<lambda>(b, r). (c # b, r)) (str_body q cs))"

definition str_literal :: "string \<Rightarrow> (string \<times> string) option" where
  "str_literal s =
     (case s of
        [] \<Rightarrow> None
      | q # cs \<Rightarrow> if q = CHR 0x22 \<or> q = CHR 0x27 then str_body q cs else None)"

definition py_int :: "string \<Rightarrow> nat" where
  "py_int t = foldl (\<lambda>a c. 10 * a + digit_val c) 0 (filter is_digit t)"

definition int_literal :: "string \<Rightarrow> (int \<times> string) option" where
  "int_literal s =
     (let neg = (s \<noteq> [] \<and> hd s = CHR ''-'');
          r = (if neg then tl s else s);
          ds = takeWhile is_digit r
      in if ds = [] \<or> (1 < length ds \<and> hd ds = CHR ''0'') then None
         else Some ((if neg then - int (py_int ds) else int (py_int ds)), dropWhile is_digit r))"

definition value_literal :: "string \<Rightarrow> (atom \<times> string) option" where
  "value_literal s =
     (case str_literal s of
        Some (v, r) \<Rightarrow> Some (PyStr v, r)
      | None \<Rightarrow> map_option (\<lambda>(n, r). (PyInt n, r)) (int_literal s))"

text \<open>
  The items of the display after its opening brace. Every round consumes at least one
  character, so the length of the text is fuel enough.
\<close>

fun dict_items :: "nat \<Rightarrow> string \<Rightarrow> py_dict \<Rightarrow> (py_dict \<times> string) option" where
  "dict_items 0 s acc = None"
| "dict_items (Suc n) s acc =
     (case dropWhile is_blank s of
        [] \<Rightarrow> None
      | c # cs \<Rightarrow>
          if c = CHR ''}'' then Some (acc, cs)
          else (case str_literal (c # cs) of
                  None \<Rightarrow> None
                | Some (k, r1) \<Rightarrow>
                    (case dropWhile is_blank r1 of
                       [] \<Rightarrow> None
                     | c1 # r2 \<Rightarrow>
                         if c1 \<noteq> CHR '':'' then None
                         else (case value_literal (dropWhile is_blank r2) of
                                 None \<Rightarrow> None
                               | Some (v, r3) \<Rightarrow>
                                   (case dropWhile is_blank r3 of
                                      [] \<Rightarrow> None
                                    | c2 # r4 \<Rightarrow>
                                        if c2 = CHR '','' then dict_items n r4 (dict_set acc k v)
                                        else if c2 = CHR ''}'' then Some (dict_set acc k v, r4)
                                        else None)))))"

definition ast_literal_eval :: "string \<Rightarrow> error + py_dict" where
  "ast_literal_eval s =
     (case dropWhile (\<lambda>c. c = CHR 0x0A) (dropWhile is_space_tab s) of
        [] \<Rightarrow> Inl MalformedLiteral
      | c # cs \<Rightarrow>
          if c \<noteq> CHR ''{'' then Inl MalformedLiteral
          else (case dict_items (Suc (length cs)) cs [] of
                  None \<Rightarrow> Inl MalformedLiteral
                | Some (d, rest) \<Rightarrow>
                    if dropWhile (\<lambda>c. c = CHR 0x0A) (dropWhile is_space_tab rest) = []
                    then Inr d else Inl MalformedLiteral))"

section \<open>Dataset Assembler\<close>

subsection \<open>\<open>datetime.strptime(value, '%d%m%Y')\<close>\<close>

text \<open>
  \<open>strptime\<close> belongs to Python's library. It compiles the format into the regular
  expression \<open>(3[0-1]|[1-2]\d|0[1-9]|[1-9]| [1-9])(1[0-2]|0[1-9]|[1-9])(\d\d\d\d)\<close>, takes
  the first match at the start of the text that the backtracking search finds, refuses
  a text that goes on after the match, and builds the date, which checks the year and
  the day. The alternatives are modelled in the order of the expression; each gives
  the text it took and the rest. Characters are bytes here: the digits are the ASCII
  digits.
\<close>

type_synonym date = "nat \<times> nat \<times> nat"

definition re1 :: "(char \<Rightarrow> bool) \<Rightarrow> string \<Rightarrow> (string \<times> string) list" where
  "re1 p s = (case s of c # r \<Rightarrow> if p c then [([c], r)] else [] | [] \<Rightarrow> [])"

definition re2 :: "(char \<Rightarrow> bool) \<Rightarrow> (char \<Rightarrow> bool) \<Rightarrow> string \<Rightarrow> (string \<times> string) list" where
  "re2 p q s =
     (case s of
        c1 # c2 # r \<Rightarrow> if p c1 \<and> q c2 then [([c1, c2], r)] else []
      | _ \<Rightarrow> [])"

definition day_alts :: "string \<Rightarrow> (string \<times> string) list" where
  "day_alts s =
     re2 (\<lambda>c. c = CHR ''3'') (\<lambda>c. c \<in> set ''01'') s @
     re2 (\<lambda>c. c \<in> set ''12'') is_digit s @
     re2 (\<lambda>c. c = CHR ''0'') is_digit19 s @
     re1 is_digit19 s @
     re2 (\<lambda>c. c = CHR '' '') is_digit19 s"

definition month_alts :: "string \<Rightarrow> (string \<times> string) list" where
  "month_alts s =
     re2 (\<lambda>c. c = CHR ''1'') (\<lambda>c. c \<in> set ''012'') s @
     re2 (\<lambda>c. c = CHR ''0'') is_digit19 s @
     re1 is_digit19 s"

definition year_alts :: "string \<Rightarrow> (string \<times> string) list" where
  "year_alts s =
     (case s of
        a # b # c # d # r \<Rightarrow>
          if is_digit a \<and> is_digit b \<and> is_digit c \<and> is_digit d then [([a, b, c, d], r)] else []
      | _ \<Rightarrow> [])"

definition regex_match :: "string \<Rightarrow> (string \<times> string \<times> string \<times> string) list" where
  "regex_match s =
     concat (map (\<lambda>(d, r1).
       concat (map (\<lambda>(m, r2).
         map (\<lambda>(y, r3). (d, m, y, r3)) (year_alts r2)) (month_alts r1))) (day_alts s))"

definition is_leap :: "nat \<Rightarrow> bool" where
  "is_leap y = (y mod 4 = 0 \<and> (y mod 100 \<noteq> 0 \<or> y mod 400 = 0))"

definition days_in_month :: "nat \<Rightarrow> nat \<Rightarrow> nat" where
  "days_in_month y m =
     (if m = 2 then (if is_leap y then 29 else 28)
      else if m \<in> {4, 6, 9, 11} then 30 else 31)"

definition strptime :: "string \<Rightarrow> error + date" where
  "strptime s =
     (case regex_match s of
        [] \<Rightarrow> Inl (ValueError ''time data does not match format'')
      | (d, m, y, rest) # _ \<Rightarrow>
          if rest \<noteq> [] then Inl (ValueError ''unconverted data remains'')
          else if py_int y < 1 then Inl (ValueError ''year 0 is out of range'')
          else if days_in_month (py_int y) (py_int m) < py_int d
            then Inl (ValueError ''day is out of range for month'')
          else Inr (py_int y, py_int m, py_int d))"

text \<open>
  One pass of the loop over \<open>df['file_name'].str.replace('.pdf', '')\<close>: the text
  replacement is literal (pandas 2 and later), and every occurrence goes.
\<close>

definition derive_report_date :: "string \<Rightarrow> error + date" where
  "derive_report_date name = strptime (str_replace ''.pdf'' '''' name)"

subsection \<open>Mounting the table\<close>








section \<open>Dataset Validator\<close>

text \<open>
  The table as \<open>pd.read_csv\<close> returns it: the columns in file order, each with the
  dtype pandas inferred and its cells as text. \<open>len(df)\<close> is the number of rows.
\<close>

datatype dtype = Int64 | Float64 | Bool | Object

record column =
  dtype :: dtype
  cells :: "string list"

type_synonym dataframe = "(string \<times> column) list"

definition df_len :: "dataframe \<Rightarrow> nat" where
  "df_len df = (case df of [] \<Rightarrow> 0 | (name, col) # _ \<Rightarrow> length (cells col))"

definition is_numeric_dtype :: "column \<Rightarrow> bool" where
  "is_numeric_dtype col = (dtype col \<noteq> Object)"

text \<open>The second component of the result: the message, with what it names.\<close>

datatype reason =
    DataFileEmpty
  | MissingRequiredColumns "string set"
  | InvalidCompaniesFound "string set"
  | ColumnShouldBeNumeric string
  | InvalidDateFormat
  | InsufficientDataRecords
  | ErrorReadingDataFile string

definition required_columns :: "string set" where
  "required_columns =
     {''Simbol'', ''file_name'', ''Revenue'', ''Cost of Goods Sold (COGS)'',
      ''Gross Profit'', ''Operating Expenses'', ''Operating Income'',
      ''Net Income'', ''Report Date''}"

definition valid_companies :: "string set" where
  "valid_companies = {''REXP'', ''DIPD''}"

definition numeric_columns :: "string list" where
  "numeric_columns =
     [''Revenue'', ''Cost of Goods Sold (COGS)'', ''Gross Profit'',
      ''Operating Expenses'', ''Operating Income'', ''Net Income'']"

text \<open>
  The loop over \<open>numeric_columns\<close>: \<open>None\<close> when it runs to its end, the value returned
  otherwise. A column that is not in the table is a \<open>KeyError\<close>, which the outer
  handler reports.
\<close>

fun check_numeric :: "dataframe \<Rightarrow> string list \<Rightarrow> (bool \<times> reason option) option" where
  "check_numeric df [] = None"
| "check_numeric df (col # rest) =
     (case map_of df col of
        None \<Rightarrow> Some (False, Some (ErrorReadingDataFile col))
      | Some c \<Rightarrow>
          if \<not> is_numeric_dtype c then Some (False, Some (ColumnShouldBeNumeric col))
          else check_numeric df rest)"

text \<open>
  \<open>validate_data_structure\<close>. Its argument \<open>read_csv\<close> is what reading the file gave:
  the table, or the message of the exception. \<open>pd.to_datetime\<close> is a parameter:
  \<open>to_datetime col\<close> holds when the conversion of the column does not raise.
\<close>

definition validate_data_structure ::
  "(column \<Rightarrow> bool) \<Rightarrow> string + dataframe \<Rightarrow> bool \<times> reason option" where
  "validate_data_structure to_datetime read_csv =
     (case read_csv of
        Inl msg \<Rightarrow> (False, Some (ErrorReadingDataFile msg))
      | Inr df \<Rightarrow>
          if df_len df = 0 then (False, Some DataFileEmpty)
          else let missing_columns = required_columns - set (map fst df) in
          if missing_columns \<noteq> {} then (False, Some (MissingRequiredColumns missing_columns))
          else (case map_of df ''Simbol'' of
                  None \<Rightarrow> (False, Some (ErrorReadingDataFile ''Simbol''))
                | Some simbol_col \<Rightarrow>
                    let actual_companies = set (cells simbol_col) in
                    if \<not> actual_companies \<subseteq> valid_companies
                    then (False, Some (InvalidCompaniesFound (actual_companies - valid_companies)))
                    else (case check_numeric df numeric_columns of
                            Some result \<Rightarrow> result
                          | None \<Rightarrow>
                              if \<not> (case map_of df ''Report Date'' of
                                       None \<Rightarrow> False
                                     | Some date_col \<Rightarrow> to_datetime date_col)
                              then (False, Some InvalidDateFormat)
                              else if df_len df < 4 then (False, Some InsufficientDataRecords)
                              else (True, None))))"

section \<open>The vocabulary of the specification\<close>

text \<open>The pages of a document that carry the marker of a symbol, in page order.\<close>

definition matching :: "string \<Rightarrow> string list \<Rightarrow> string list" where
  "matching smb pgs =
     (case map_page_simbol smb of None \<Rightarrow> [] | Some marker \<Rightarrow> filter (str_in marker) pgs)"

definition pages_of :: "pipeline \<Rightarrow> string \<Rightarrow> string list" where
  "pages_of P financial_file =
     (case pdf_open P financial_file of None \<Rightarrow> [] | Some pgs \<Rightarrow> pgs)"

definition doc_matches :: "pipeline \<Rightarrow> string \<Rightarrow> string \<Rightarrow> string list" where
  "doc_matches P smb financial_file = matching smb (pages_of P financial_file)"

definition short_name :: "string \<Rightarrow> string \<Rightarrow> string" where
  "short_name smb financial_file =
     drop (nat (str_find financial_file smb + 5)) financial_file"

text \<open>
  A raw-data directory with one REXP document, \<open>30062022.pdf\<close>, whose pages are
  given.
\<close>

definition raw_with :: "string list \<Rightarrow> pipeline" where
  "raw_with pgs =
     \<lparr>raw_data_path = ''raw/'',
      listdir = (\<lambda>d. if d = ''raw/REXP'' then Some [''30062022.pdf''] else None),
      pdf_open = (\<lambda>f. Some pgs)\<rparr>"

definition two_marker_pages :: "string list" where
  "two_marker_pages =
     [''Consolidated Income Statements 2022'', ''Notes'',
      ''Consolidated Income Statements (continued)'']"

text \<open>A client that answers every request with the same text.\<close>

definition constant_client :: "string \<Rightarrow> error + string" where
  "constant_client message = Inr ''{}''"

text \<open>
  Three replies of the model: a record with the text \<open>json\<close> inside a file name, one
  with it inside another value, and one without it; and the fence around a reply.
\<close>

definition fenced :: "string \<Rightarrow> string" where
  "fenced body = ''```json'' @ body @ ''```''"

definition reply_json_in_file_name :: string where
  "reply_json_in_file_name =
     [CHR 0x0A] @ ''{'' @ [CHR 0x22] @ ''Simbol'' @ [CHR 0x22] @ '': '' @
     [CHR 0x22] @ ''REXP'' @ [CHR 0x22] @ '', '' @
     [CHR 0x22] @ ''file_name'' @ [CHR 0x22] @ '': '' @
     [CHR 0x22] @ ''30062022json.pdf'' @ [CHR 0x22] @ '', '' @
     [CHR 0x22] @ ''Revenue'' @ [CHR 0x22] @ '': 2767931,'' @ [CHR 0x0A] @ ''}'' @ [CHR 0x0A]"

definition reply_json_in_value :: string where
  "reply_json_in_value =
     [CHR 0x0A] @ ''{'' @ [CHR 0x22] @ ''Simbol'' @ [CHR 0x22] @ '': '' @
     [CHR 0x22] @ ''jsonREXP'' @ [CHR 0x22] @ ''}'' @ [CHR 0x0A]"

definition reply_plain :: string where
  "reply_plain =
     [CHR 0x0A] @ ''{'' @ [CHR 0x22] @ ''Simbol'' @ [CHR 0x22] @ '': '' @
     [CHR 0x22] @ ''DIPD'' @ [CHR 0x22] @ '', '' @
     [CHR 0x22] @ ''file_name'' @ [CHR 0x22] @ '': '' @
     [CHR 0x22] @ ''31122022.pdf'' @ [CHR 0x22] @ '', '' @
     [CHR 0x22] @ ''Net Income'' @ [CHR 0x22] @ '': -15}'' @ [CHR 0x0A]"

text \<open>
  The order of the checks as the specification lists them, and the general shape
  "the reason of the first check that fails": a check is a pair of its outcome and its
  reason.
\<close>

fun first_failure :: "(bool \<times> reason) list \<Rightarrow> bool \<times> reason option" where
  "first_failure [] = (True, None)"
| "first_failure ((ok, r) # rest) = (if ok then first_failure rest else (False, Some r))"

definition column_of :: "dataframe \<Rightarrow> string \<Rightarrow> column" where
  "column_of df name =
     (case map_of df name of None \<Rightarrow> \<lparr>dtype = Object, cells = []\<rparr> | Some c \<Rightarrow> c)"

definition check_columns :: "dataframe \<Rightarrow> bool \<times> reason" where
  "check_columns df =
     (required_columns - set (map fst df) = {},
      MissingRequiredColumns (required_columns - set (map fst df)))"

definition check_non_empty :: "dataframe \<Rightarrow> bool \<times> reason" where
  "check_non_empty df = (df_len df \<noteq> 0, DataFileEmpty)"

definition check_companies :: "dataframe \<Rightarrow> bool \<times> reason" where
  "check_companies df =
     (set (cells (column_of df ''Simbol'')) - valid_companies = {},
      InvalidCompaniesFound (set (cells (column_of df ''Simbol'')) - valid_companies))"

definition check_monetary :: "dataframe \<Rightarrow> bool \<times> reason" where
  "check_monetary df =
     (list_all (\<lambda>col. is_numeric_dtype (column_of df col)) numeric_columns,
      ColumnShouldBeNumeric
        (case List.find (\<lambda>col. \<not> is_numeric_dtype (column_of df col)) numeric_columns of
           None \<Rightarrow> [] | Some col \<Rightarrow> col))"

definition check_dates :: "(column \<Rightarrow> bool) \<Rightarrow> dataframe \<Rightarrow> bool \<times> reason" where
  "check_dates to_datetime df = (to_datetime (column_of df ''Report Date''), InvalidDateFormat)"

definition check_rows :: "dataframe \<Rightarrow> bool \<times> reason" where
  "check_rows df = (4 \<le> df_len df, InsufficientDataRecords)"

definition validate_in_spec_order :: "(column \<Rightarrow> bool) \<Rightarrow> dataframe \<Rightarrow> bool \<times> reason option" where
  "validate_in_spec_order to_datetime df =
     first_failure
       [check_columns df, check_non_empty df, check_companies df,
        check_monetary df, check_dates to_datetime df, check_rows df]"

text \<open>
  A \<open>pd.to_datetime\<close> that accepts every column, a table with a header and no row,
  and a table of four rows that has every required column.
\<close>

definition lenient_to_datetime :: "column \<Rightarrow> bool" where
  "lenient_to_datetime col = True"

definition header_only_table :: dataframe where
  "header_only_table = [(''Simbol'', \<lparr>dtype = Object, cells = []\<rparr>)]"

definition four_row_table :: dataframe where
  "four_row_table =
     [(''Simbol'', \<lparr>dtype = Object, cells = [''REXP'', ''DIPD'', ''REXP'', ''DIPD'']\<rparr>),
      (''file_name'', \<lparr>dtype = Object,
         cells = [''30062022.pdf'', ''30062022.pdf'', ''30092022.pdf'', ''30092022.pdf'']\<rparr>),
      (''Revenue'', \<lparr>dtype = Int64, cells = [''10'', ''20'', ''30'', ''40'']\<rparr>),
      (''Cost of Goods Sold (COGS)'', \<lparr>dtype = Int64, cells = [''-1'', ''-2'', ''-3'', ''-4'']\<rparr>),
      (''Gross Profit'', \<lparr>dtype = Int64, cells = [''9'', ''18'', ''27'', ''36'']\<rparr>),
      (''Operating Expenses'', \<lparr>dtype = Int64, cells = [''-1'', ''-1'', ''-1'', ''-1'']\<rparr>),
      (''Operating Income'', \<lparr>dtype = Int64, cells = [''8'', ''17'', ''26'', ''35'']\<rparr>),
      (''Net Income'', \<lparr>dtype = Float64, cells = [''7.5'', ''16.5'', ''25.5'', ''34.5'']\<rparr>),
      (''Report Date'', \<lparr>dtype = Object,
         cells = [''2022-06-30'', ''2022-06-30'', ''2022-09-30'', ''2022-09-30'']\<rparr>)]"

definition two_row_table :: dataframe where
  "two_row_table =
     map (\<lambda>(name, col). (name, col\<lparr>cells := take 2 (cells col)\<rparr>)) four_row_table"



section \<open>Properties\<close>

subsection \<open>Strings\<close>


subsection \<open>Page Locator\<close>

lemma scan_pages_Inr:
  "scan_pages smb f pgs t = Inr t' \<Longrightarrow>
     t' = t\<lparr>simbol := simbol t @ replicate (length (matching smb pgs)) smb,
            file_name := file_name t @ replicate (length (matching smb pgs)) (short_name smb f),
            target_page := target_page t @ matching smb pgs\<rparr>"
proof (induction pgs arbitrary: t)
  case Nil
  then show ?case by (simp add: matching_def split: option.splits)
next
  case (Cons p ps)
  then obtain m where m: "map_page_simbol smb = Some m"
    by (cases "map_page_simbol smb") auto
  show ?case
  proof (cases "str_in m p")
    case True
    with Cons.prems m have "scan_pages smb f ps (t\<lparr>simbol := simbol t @ [smb],
                    file_name := file_name t @ [short_name smb f],
                    target_page := target_page t @ [p]\<rparr>) = Inr t'"
      by (simp add: short_name_def)
    from Cons.IH[OF this] m True show ?thesis
      by (simp add: matching_def replicate_app_Cons_same)
  next
    case False
    with Cons.prems m have "scan_pages smb f ps t = Inr t'" by simp
    from Cons.IH[OF this] m False show ?thesis
      by (simp add: matching_def)
  qed
qed

lemma scan_files_Inr:
  "scan_files P smb files i t = Inr t' \<Longrightarrow>
     index t' = index t @ [i ..< i + length files] \<and>
     target_page t' = target_page t @ concat (map (doc_matches P smb) files) \<and>
     simbol t' = simbol t @ replicate (length (concat (map (doc_matches P smb) files))) smb \<and>
     file_name t' = file_name t @
       concat (map (\<lambda>f. replicate (length (doc_matches P smb f)) (short_name smb f)) files)"
proof (induction files arbitrary: i t)
  case Nil
  then show ?case by simp
next
  case (Cons f fs)
  from Cons.prems obtain pgs where pgs: "pdf_open P f = Some pgs"
    by (cases "pdf_open P f") auto
  with Cons.prems obtain t1 where t1: "scan_pages smb f pgs t = Inr t1"
    and rest: "scan_files P smb fs (Suc i) (t1\<lparr>index := index t1 @ [i]\<rparr>) = Inr t'"
    by (cases "scan_pages smb f pgs t") auto
  note a = scan_pages_Inr[OF t1]
  note b = Cons.IH[OF rest]
  have dm: "doc_matches P smb f = matching smb pgs"
    by (simp add: doc_matches_def pages_of_def pgs)
  have up: "[i..<Suc (i + length fs)] = i # [Suc i..<Suc (i + length fs)]"
    by (rule upt_conv_Cons) simp
  show ?case
    apply (intro conjI)
    subgoal using b a by (simp del: upt_Suc add: up)
    subgoal using b a by (simp add: dm)
    subgoal using b a by (simp add: dm replicate_add)
    subgoal using b a by (simp add: dm)
    done
qed

lemma extract_pl_pages_Inr:
  assumes "listdir P (raw_data_path P @ smb) = Some files"
    and "extract_pl_pages P smb = Inr t"
  shows "index t = [0 ..< length files]"
    and "target_page t = concat (map (doc_matches P smb) (map (full_path P smb) files))"
    and "simbol t = replicate (length (target_page t)) smb"
    and "length (file_name t) = length (target_page t)"
proof -
  from assms have sf: "scan_files P smb (map (full_path P smb) files) 0 empty_target = Inr t"
    by (simp add: extract_pl_pages_def list_all_files_def)
  note r = scan_files_Inr[OF sf]
  from r show "index t = [0 ..< length files]" by (simp add: empty_target_def)
  from r show tp: "target_page t = concat (map (doc_matches P smb) (map (full_path P smb) files))"
    by (simp add: empty_target_def)
  from r tp show "simbol t = replicate (length (target_page t)) smb"
    by (simp add: empty_target_def)
  have "length (concat (map (\<lambda>f. replicate (length (doc_matches P smb f)) (short_name smb f)) fs))
      = length (concat (map (doc_matches P smb) fs))" for fs
    by (induction fs) simp_all
  with r tp show "length (file_name t) = length (target_page t)"
    by (simp add: empty_target_def del: map_map)
qed

lemma extract_two_marker_pages:
  "extract_pl_pages (raw_with two_marker_pages) ''REXP'' =
     Inr \<lparr>index = [0], simbol = [''REXP'', ''REXP''],
          file_name = [''30062022.pdf'', ''30062022.pdf''],
          target_page = [''Consolidated Income Statements 2022'',
                         ''Consolidated Income Statements (continued)'']\<rparr>"
  by (simp add: extract_pl_pages_def list_all_files_def raw_with_def two_marker_pages_def
      map_page_simbol_def empty_target_def str_find_def backslash_def full_path_def)

lemma extract_no_marker_page:
  "extract_pl_pages (raw_with [''Notes'']) ''REXP'' =
     Inr \<lparr>index = [0], simbol = [], file_name = [], target_page = []\<rparr>"
  by (simp add: extract_pl_pages_def list_all_files_def raw_with_def
      map_page_simbol_def empty_target_def str_find_def backslash_def full_path_def)

lemma listdir_raw_with:
  "listdir (raw_with pgs) (raw_data_path (raw_with pgs) @ ''REXP'') = Some [''30062022.pdf'']"
  by (simp add: raw_with_def)

text \<open>
  C4. When the Page Locator returns a batch for a symbol, the index list has one entry
  per listed document, whatever the pages of the documents are, and the lists
  \<open>simbol\<close>, \<open>file_name\<close> and \<open>target_page\<close> each have one entry per matched page; a
  batch exists whose index list and matched-page lists differ in length.
\<close>

theorem locator_index_per_document:
  assumes "listdir P (raw_data_path P @ smb) = Some files"
    and "extract_pl_pages P smb = Inr t"
  shows "length (index t) = length files \<and>
         length (simbol t) = length (concat (map (doc_matches P smb) (map (full_path P smb) files))) \<and>
         length (file_name t) = length (concat (map (doc_matches P smb) (map (full_path P smb) files))) \<and>
         length (target_page t) = length (concat (map (doc_matches P smb) (map (full_path P smb) files))) \<and>
         (\<exists>P' smb' t'. extract_pl_pages P' smb' = Inr t' \<and> length (index t') \<noteq> length (target_page t'))"
proof -
  note r = extract_pl_pages_Inr[OF assms]
  have "length (index t) = length files" using r(1) by simp
  moreover have "length (target_page t) =
      length (concat (map (doc_matches P smb) (map (full_path P smb) files)))"
    using r(2) by simp
  moreover have "length (simbol t) = length (target_page t)"
    using r(3) by (metis length_replicate)
  moreover note r(4)
  moreover have "\<exists>P' smb' t'. extract_pl_pages P' smb' = Inr t' \<and>
      length (index t') \<noteq> length (target_page t')"
    using extract_two_marker_pages
    by (intro exI[of _ "raw_with two_marker_pages"] exI[of _ "''REXP''"]) simp
  ultimately show ?thesis by simp
qed

theorem locator_index_per_document_witness:
  "listdir (raw_with two_marker_pages) (raw_data_path (raw_with two_marker_pages) @ ''REXP'')
     = Some [''30062022.pdf''] \<and>
   extract_pl_pages (raw_with two_marker_pages) ''REXP'' =
     Inr \<lparr>index = [0], simbol = [''REXP'', ''REXP''],
          file_name = [''30062022.pdf'', ''30062022.pdf''],
          target_page = [''Consolidated Income Statements 2022'',
                         ''Consolidated Income Statements (continued)'']\<rparr> \<and>
   length (index \<lparr>index = [0::nat], simbol = [''REXP'', ''REXP''],
          file_name = [''30062022.pdf'', ''30062022.pdf''],
          target_page = [''Consolidated Income Statements 2022'',
                         ''Consolidated Income Statements (continued)'']\<rparr>) = length [''30062022.pdf'']"
  using locator_index_per_document[OF listdir_raw_with extract_two_marker_pages]
    listdir_raw_with extract_two_marker_pages
  by simp






subsection \<open>Extraction Client\<close>

lemma llm_loop_Inr:
  "llm_loop client pages ixs sent responses = (sent', Inr responses') \<Longrightarrow>
     length sent' = length sent + length ixs \<and>
     length responses' = length responses + length ixs"
proof (induction ixs arbitrary: sent responses)
  case Nil
  then show ?case by simp
next
  case (Cons i rest)
  from Cons.prems obtain message where m: "build_message pages i = Inr message"
    by (cases "build_message pages i") auto
  with Cons.prems obtain reply where t: "client message = Inr reply"
    by (cases "client message") auto
  from Cons.prems m t
  have "llm_loop client pages rest (sent @ [message]) (responses @ [reply]) = (sent', Inr responses')"
    by simp
  from Cons.IH[OF this] show ?case by simp
qed

lemma llm_loop_Inl:
  "\<forall>i \<in> set ixs. \<exists>message. build_message pages i = Inr message \<Longrightarrow>
   llm_loop client pages ixs sent responses = (sent', Inl e) \<Longrightarrow>
     \<exists>message. client message = Inl e"
proof (induction ixs arbitrary: sent responses)
  case Nil
  then show ?case by simp
next
  case (Cons i rest)
  from Cons.prems(1) obtain message where m: "build_message pages i = Inr message"
    by auto
  show ?case
  proof (cases "client message")
    case (Inl e')
    with Cons.prems(2) m have "e' = e" by simp
    with Inl show ?thesis by blast
  next
    case (Inr reply)
    with Cons.prems(2) m
    have "llm_loop client pages rest (sent @ [message]) (responses @ [reply]) = (sent', Inl e)"
      by simp
    moreover from Cons.prems(1)
    have "\<forall>i \<in> set rest. \<exists>message. build_message pages i = Inr message" by simp
    ultimately show ?thesis by (rule Cons.IH[rotated])
  qed
qed

lemma build_message_in_bounds:
  "i < length (index pages) \<Longrightarrow> i < length (simbol pages) \<Longrightarrow>
   i < length (file_name pages) \<Longrightarrow> i < length (target_page pages) \<Longrightarrow>
     \<exists>message. build_message pages i = Inr message"
  by (simp add: build_message_def subscript_def)

lemma extraction_no_marker_page:
  "llm_data_extraction client \<lparr>index = [0], simbol = [], file_name = [], target_page = []\<rparr>
     = ([], Inl IndexError)"
  by (simp add: llm_data_extraction_def build_message_def subscript_def)

lemma one_page_each:
  "\<forall>f \<in> set fs. length (g f) = Suc 0 \<Longrightarrow> length (concat (map g fs)) = length fs"
  by (induction fs) simp_all

text \<open>
  C9. \<open>llm_data_extraction\<close> runs once per entry of the index list and reads the four
  lists at that position. When every listed document contributed exactly one matching
  page, every such read is in bounds: the payload of every position is built, a call
  that returns has sent one request per document, and a call that raises raises what
  the client raised. Without that, a batch exists (one document, no matching page) on
  which the call sends nothing and fails with an \<open>IndexError\<close>.
\<close>

theorem extraction_reads_in_bounds:
  assumes "listdir P (raw_data_path P @ smb) = Some files"
    and "extract_pl_pages P smb = Inr t"
    and "\<forall>f \<in> set files. length (doc_matches P smb (full_path P smb f)) = 1"
  shows "(\<forall>i < length (index t). \<exists>message. build_message t i = Inr message) \<and>
         (\<forall>sent responses. llm_data_extraction client t = (sent, Inr responses) \<longrightarrow>
            length sent = length files \<and> length responses = length files) \<and>
         (\<forall>sent e. llm_data_extraction client t = (sent, Inl e) \<longrightarrow>
            (\<exists>message. client message = Inl e)) \<and>
         (\<exists>P' t'. extract_pl_pages P' ''REXP'' = Inr t' \<and>
            length (index t') = 1 \<and> target_page t' = [] \<and>
            (\<forall>client'. llm_data_extraction client' t' = ([], Inl IndexError)))"
proof -
  note r = extract_pl_pages_Inr[OF assms(1,2)]
  have n: "length (index t) = length files" using r(1) by simp
  have "length (concat (map (doc_matches P smb) (map (full_path P smb) files))) =
      length (map (full_path P smb) files)"
    by (rule one_page_each) (use assms(3) in simp)
  with r(2) have tp: "length (target_page t) = length files" by simp
  with r(4) have fn: "length (file_name t) = length files" by simp
  from r(3) tp have sm: "length (simbol t) = length files"
    by (metis length_replicate)
  have a: "\<forall>i < length (index t). \<exists>message. build_message t i = Inr message"
    using n tp fn sm by (simp add: build_message_in_bounds)
  have b: "\<forall>sent responses. llm_data_extraction client t = (sent, Inr responses) \<longrightarrow>
            length sent = length files \<and> length responses = length files"
    unfolding llm_data_extraction_def using llm_loop_Inr[of client t] n by fastforce
  have c: "\<forall>sent e. llm_data_extraction client t = (sent, Inl e) \<longrightarrow>
            (\<exists>message. client message = Inl e)"
  proof (intro allI impI)
    fix sent e
    assume "llm_data_extraction client t = (sent, Inl e)"
    then have "llm_loop client t [0..<length (index t)] [] [] = (sent, Inl e)"
      by (simp add: llm_data_extraction_def)
    moreover from a
    have "\<forall>i \<in> set [0..<length (index t)]. \<exists>message. build_message t i = Inr message"
      by simp
    ultimately show "\<exists>message. client message = Inl e"
      by (rule llm_loop_Inl[rotated])
  qed
  have d: "\<exists>P' t'. extract_pl_pages P' ''REXP'' = Inr t' \<and>
            length (index t') = 1 \<and> target_page t' = [] \<and>
            (\<forall>client'. llm_data_extraction client' t' = ([], Inl IndexError))"
    using extract_no_marker_page extraction_no_marker_page
    by (intro exI[of _ "raw_with [''Notes'']"]
          exI[of _ "\<lparr>index = [0], simbol = [], file_name = [], target_page = []\<rparr>"]) simp
  from a b c d show ?thesis by blast
qed

lemma extract_one_marker_page:
  "extract_pl_pages (raw_with [''Consolidated Income Statements 2022'']) ''REXP'' =
     Inr \<lparr>index = [0], simbol = [''REXP''], file_name = [''30062022.pdf''],
          target_page = [''Consolidated Income Statements 2022'']\<rparr>"
  by (simp add: extract_pl_pages_def list_all_files_def raw_with_def
      map_page_simbol_def empty_target_def str_find_def backslash_def full_path_def)

theorem extraction_reads_in_bounds_witness:
  "length (doc_matches (raw_with [''Consolidated Income Statements 2022'']) ''REXP''
        (full_path (raw_with [''Consolidated Income Statements 2022'']) ''REXP''
           ''30062022.pdf'')) = 1 \<and>
   length (fst (llm_data_extraction constant_client
        \<lparr>index = [0], simbol = [''REXP''], file_name = [''30062022.pdf''],
         target_page = [''Consolidated Income Statements 2022'']\<rparr>)) = 1 \<and>
   snd (llm_data_extraction constant_client
        \<lparr>index = [0], simbol = [''REXP''], file_name = [''30062022.pdf''],
         target_page = [''Consolidated Income Statements 2022'']\<rparr>) = Inr [''{}'']"
proof -
  have h: "\<forall>f \<in> set [''30062022.pdf''].
      length (doc_matches (raw_with [''Consolidated Income Statements 2022'']) ''REXP''
        (full_path (raw_with [''Consolidated Income Statements 2022'']) ''REXP'' f)) = 1"
    by (simp add: doc_matches_def matching_def pages_of_def raw_with_def map_page_simbol_def)
  obtain sent where run: "llm_data_extraction constant_client
        \<lparr>index = [0], simbol = [''REXP''], file_name = [''30062022.pdf''],
         target_page = [''Consolidated Income Statements 2022'']\<rparr> = (sent, Inr [''{}''])"
    by (simp add: llm_data_extraction_def build_message_def subscript_def constant_client_def)
  from extraction_reads_in_bounds[OF listdir_raw_with extract_one_marker_page h, of constant_client]
    run
  have "length sent = length [''30062022.pdf'']" by blast
  with h run show ?thesis by simp
qed

text \<open>
  C1 at a batch the Page Locator returns: one document with two matching pages gives a
  batch of two matched pages, for which a single request is sent.
\<close>

theorem one_request_for_two_matched_pages:
  "extract_pl_pages (raw_with two_marker_pages) ''REXP'' =
     Inr \<lparr>index = [0], simbol = [''REXP'', ''REXP''],
          file_name = [''30062022.pdf'', ''30062022.pdf''],
          target_page = [''Consolidated Income Statements 2022'',
                         ''Consolidated Income Statements (continued)'']\<rparr> \<and>
   length (fst (llm_data_extraction constant_client
     \<lparr>index = [0], simbol = [''REXP'', ''REXP''],
          file_name = [''30062022.pdf'', ''30062022.pdf''],
          target_page = [''Consolidated Income Statements 2022'',
                         ''Consolidated Income Statements (continued)'']\<rparr>)) = 1 \<and>
   snd (llm_data_extraction constant_client
     \<lparr>index = [0], simbol = [''REXP'', ''REXP''],
          file_name = [''30062022.pdf'', ''30062022.pdf''],
          target_page = [''Consolidated Income Statements 2022'',
                         ''Consolidated Income Statements (continued)'']\<rparr>) = Inr [''{}'']"
  using extract_two_marker_pages
  by (simp add: llm_data_extraction_def build_message_def subscript_def constant_client_def)

subsection \<open>Response Parser\<close>

lemma str_replace_absent:
  "old \<noteq> [] \<Longrightarrow> \<not> str_in old s \<Longrightarrow> str_replace old new s = s"
  by (induction s) auto

lemma length_str_replace_le:
  "old \<noteq> [] \<Longrightarrow> length (str_replace old [] s) \<le> length s"
proof (induction old "[] :: string" s rule: str_replace.induct)
  case (1 old)
  then show ?case by simp
next
  case (2 old c cs)
  show ?case
  proof (cases "prefix old (c # cs)")
    case True
    with 2 have "length (str_replace old [] (drop (length old) (c # cs)))
        \<le> length (drop (length old) (c # cs))" by simp
    with True 2(4) show ?thesis by simp
  next
    case False
    with 2 show ?thesis by simp
  qed
qed

lemma length_str_replace_less:
  "old \<noteq> [] \<Longrightarrow> str_in old s \<Longrightarrow> length (str_replace old [] s) < length s"
proof (induction s)
  case Nil
  then show ?case by simp
next
  case (Cons c cs)
  show ?case
  proof (cases "prefix old (c # cs)")
    case True
    have "length (str_replace old [] (drop (length old) (c # cs)))
        \<le> length (drop (length old) (c # cs))"
      using Cons.prems(1) by (rule length_str_replace_le)
    also have "\<dots> < length (c # cs)" using Cons.prems(1) by simp
    finally show ?thesis using True Cons.prems(1) by simp
  next
    case False
    with Cons show ?thesis by simp
  qed
qed

lemma strip_fences_shorter:
  assumes "str_in ''json'' s \<or> str_in ''```'' s"
  shows "length (strip_fences s) < length s"
proof (cases "str_in ''```'' s")
  case True
  then have "length (str_replace ''```'' '''' s) < length s"
    by (intro length_str_replace_less) simp_all
  moreover have "length (strip_fences s) \<le> length (str_replace ''```'' '''' s)"
    unfolding strip_fences_def by (rule length_str_replace_le) simp
  ultimately show ?thesis by simp
next
  case False
  then have "str_replace ''```'' '''' s = s" by (intro str_replace_absent) simp_all
  moreover from False assms have "str_in ''json'' s" by simp
  then have "length (str_replace ''json'' '''' s) < length s"
    by (intro length_str_replace_less) simp_all
  ultimately show ?thesis by (simp add: strip_fences_def)
qed

lemma str_replace_closing_fence:
  "old = ''```'' \<Longrightarrow> new = [] \<Longrightarrow> str_replace old new (b @ old) = str_replace old new b"
proof (induction old new b rule: str_replace.induct)
  case (1 old new)
  then show ?case by simp
next
  case (2 old new c cs)
  have ne: "old \<noteq> []" using 2(4) by auto
  show ?case
  proof (cases "prefix old (c # cs)")
    case True
    note ih = 2(2)[OF ne True 2(4) 2(5)]
    from True have p: "prefix old (c # cs @ old)" by (metis prefix_prefix append_Cons)
    from True have len: "length old \<le> length (c # cs)" by (rule prefix_length_le)
    then have dr: "drop (length old) (c # cs @ old) = drop (length old) (c # cs) @ old"
      by (metis append_Cons drop_append diff_is_0_eq drop0)
    have "str_replace old new ((c # cs) @ old)
        = new @ str_replace old new (drop (length old) (c # cs @ old))"
      using ne p by (simp del: drop_Suc_Cons)
    also have "\<dots> = new @ str_replace old new (drop (length old) (c # cs))"
      by (simp only: dr ih)
    also have "\<dots> = str_replace old new (c # cs)"
      using ne True by (simp del: drop_Suc_Cons)
    finally show ?thesis .
  next
    case False
    note ih = 2(3)[OF ne False 2(4) 2(5)]
    show ?thesis
    proof (cases "prefix old (c # cs @ old)")
      case True
      with False 2(4) have "c # cs = ''`'' \<or> c # cs = ''``''"
        by (cases cs; cases "tl cs"; cases "tl (tl cs)") (auto simp: prefix_def)
      then show ?thesis using 2(4,5) by auto
    next
      case nf: False
      have "str_replace old new ((c # cs) @ old) = c # str_replace old new (cs @ old)"
        using ne nf by simp
      also have "\<dots> = c # str_replace old new cs" by (simp only: ih)
      also have "\<dots> = str_replace old new (c # cs)" using ne False by simp
      finally show ?thesis .
    qed
  qed
qed

lemma strip_fences_fenced: "strip_fences (fenced b) = strip_fences b"
proof -
  have "str_replace ''```'' '''' (''```json'' @ b @ ''```'')
      = ''json'' @ str_replace ''```'' '''' (b @ ''```'')"
    by simp
  also have "\<dots> = ''json'' @ str_replace ''```'' '''' b"
    by (simp add: str_replace_closing_fence)
  finally show ?thesis by (simp add: strip_fences_def fenced_def)
qed



lemmas literal_eval_defs =
  ast_literal_eval_def str_literal_def value_literal_def int_literal_def py_int_def
  is_blank_def is_space_tab_def is_digit_def digit_val_def



lemma eval_reply_json_in_value:
  "ast_literal_eval reply_json_in_value = Inr [(''Simbol'', PyStr ''jsonREXP'')]"
  by (simp add: reply_json_in_value_def literal_eval_defs)

lemma eval_stripped_reply_json_in_value:
  "ast_literal_eval (strip_fences (fenced reply_json_in_value)) = Inr [(''Simbol'', PyStr ''REXP'')]"
  by (simp add: reply_json_in_value_def strip_fences_def fenced_def literal_eval_defs)

lemma eval_reply_plain:
  "ast_literal_eval reply_plain =
     Inr [(''Simbol'', PyStr ''DIPD''), (''file_name'', PyStr ''31122022.pdf''),
          (''Net Income'', PyInt (- 15))]"
  by (simp add: reply_plain_def literal_eval_defs)

lemma reply_plain_free: "\<not> str_in ''json'' reply_plain \<and> \<not> str_in ''```'' reply_plain"
  by (simp add: reply_plain_def)

text \<open>
  C7 as stated fails: the fenced text around a record whose value holds the text
  \<open>json\<close> strips to a literal of another mapping than the unfenced text gives.
\<close>

theorem fenced_reply_parses_to_other_mapping:
  "ast_literal_eval (strip_fences (fenced reply_json_in_value)) \<noteq>
   ast_literal_eval reply_json_in_value"
  by (simp add: eval_reply_json_in_value eval_stripped_reply_json_in_value)

text \<open>
  C7, amended. For every text \<open>b\<close>, stripping the fenced text \<open>```json b ```\<close> gives
  what stripping \<open>b\<close> gives, so the parser returns for the fenced text what it returns for
  the unfenced one; and when \<open>b\<close> contains neither \<open>json\<close> nor three backquotes in a
  row, the stripped text is \<open>b\<close> itself and parses to the mapping \<open>b\<close> parses to.
\<close>

theorem fence_stripping_round_trip:
  "strip_fences (fenced b) = strip_fences b \<and>
   parse_llm_extraction_response literal_eval [fenced b] =
     parse_llm_extraction_response literal_eval [b] \<and>
   (\<not> str_in ''json'' b \<and> \<not> str_in ''```'' b \<longrightarrow>
      strip_fences (fenced b) = b \<and>
      literal_eval (strip_fences (fenced b)) = literal_eval b)"
proof -
  have a: "strip_fences (fenced b) = strip_fences b" by (rule strip_fences_fenced)
  have c: "strip_fences b = b" if "\<not> str_in ''json'' b" "\<not> str_in ''```'' b"
    using that by (simp add: strip_fences_def str_replace_absent)
  show ?thesis
    by (simp add: a c parse_llm_extraction_response_def)
qed

theorem fence_stripping_round_trip_witness:
  "\<not> str_in ''json'' reply_plain \<and> \<not> str_in ''```'' reply_plain \<and>
   strip_fences (fenced reply_plain) = reply_plain \<and>
   ast_literal_eval (strip_fences (fenced reply_plain)) =
     Inr [(''Simbol'', PyStr ''DIPD''), (''file_name'', PyStr ''31122022.pdf''),
          (''Net Income'', PyInt (- 15))]"
proof -
  note f = reply_plain_free
  from fence_stripping_round_trip[of reply_plain ast_literal_eval] f
  have s: "strip_fences (fenced reply_plain) = reply_plain"
    and e: "ast_literal_eval (strip_fences (fenced reply_plain)) = ast_literal_eval reply_plain"
    by blast+
  from f s e[unfolded eval_reply_plain] show ?thesis by blast
qed

lemma eval_reply_json_in_file_name:
  "ast_literal_eval reply_json_in_file_name =
     Inr [(''Simbol'', PyStr ''REXP''), (''file_name'', PyStr ''30062022json.pdf''),
          (''Revenue'', PyInt 2767931)]"
  by (simp add: reply_json_in_file_name_def literal_eval_defs)

lemma parse_reply_json_in_file_name:
  "parse_llm_extraction_response ast_literal_eval [fenced reply_json_in_file_name] =
     ([], Inr [[(''Simbol'', PyStr ''REXP''), (''file_name'', PyStr ''30062022.pdf''),
                (''Revenue'', PyInt 2767931)]])"
  by (simp add: parse_llm_extraction_response_def reply_json_in_file_name_def
      strip_fences_def fenced_def literal_eval_defs)

text \<open>
  C10. Stripping works on the whole response: a response that contains \<open>json\<close> or three
  backquotes in a row anywhere comes out shorter. The fenced response whose record
  has the file name \<open>30062022json.pdf\<close> is a literal with that file name, and the
  parser returns a record with the file name \<open>30062022.pdf\<close>.
\<close>

theorem stripping_reaches_values:
  "(str_in ''json'' s \<or> str_in ''```'' s \<longrightarrow> length (strip_fences s) < length s) \<and>
   map_of (projr (ast_literal_eval reply_json_in_file_name)) ''file_name''
     = Some (PyStr ''30062022json.pdf'') \<and>
   parse_llm_extraction_response ast_literal_eval [fenced reply_json_in_file_name] =
     ([], Inr [[(''Simbol'', PyStr ''REXP''), (''file_name'', PyStr ''30062022.pdf''),
                (''Revenue'', PyInt 2767931)]])"
  using strip_fences_shorter[of s]
  by (simp add: eval_reply_json_in_file_name parse_reply_json_in_file_name)

lemma json_in_reply: "str_in ''json'' (fenced reply_json_in_file_name)"
  by (simp add: fenced_def)

theorem stripping_reaches_values_witness:
  "str_in ''json'' (fenced reply_json_in_file_name) \<and>
   length (strip_fences (fenced reply_json_in_file_name)) <
     length (fenced reply_json_in_file_name)"
  using stripping_reaches_values[of "fenced reply_json_in_file_name"] json_in_reply
  by simp

subsection \<open>Dataset Validator\<close>

lemma check_numeric_present:
  "set cols \<subseteq> fst ` set df \<Longrightarrow>
   check_numeric df cols =
     (if list_all (\<lambda>col. is_numeric_dtype (column_of df col)) cols then None
      else Some (False, Some (ColumnShouldBeNumeric
        (case List.find (\<lambda>col. \<not> is_numeric_dtype (column_of df col)) cols of
           None \<Rightarrow> [] | Some col \<Rightarrow> col))))"
proof (induction cols)
  case Nil
  then show ?case by simp
next
  case (Cons col rest)
  then have "col \<in> fst ` set df" by simp
  then obtain c where c: "map_of df col = Some c"
    by (metis domD dom_map_of_conv_image_fst)
  with Cons show ?case by (simp add: column_of_def)
qed

lemma numeric_columns_required: "set numeric_columns \<subseteq> required_columns"
  by (simp add: numeric_columns_def required_columns_def)

text \<open>
  C3 as stated fails: on a table with a header and no row, which lacks required
  columns, the order of the specification reports the missing columns and the code
  reports an empty file.
\<close>

theorem validator_reports_empty_before_columns:
  "validate_data_structure lenient_to_datetime (Inr header_only_table) =
     (False, Some DataFileEmpty) \<and>
   validate_in_spec_order lenient_to_datetime header_only_table =
     (False, Some (MissingRequiredColumns (required_columns - {''Simbol''}))) \<and>
   validate_data_structure lenient_to_datetime (Inr header_only_table) \<noteq>
     validate_in_spec_order lenient_to_datetime header_only_table"
  by (simp add: validate_data_structure_def validate_in_spec_order_def header_only_table_def
      df_len_def check_columns_def required_columns_def)

text \<open>
  C3, amended. The validator checks, in this order: the table is non-empty; the
  required columns are present, the missing ones named; the company symbols are among
  REXP and DIPD, the others named; the six monetary columns are numeric, the first that
  is not named; the Report Date column converts to dates; there are at least 4 rows. It
  returns the flag and the reason of the first check that fails, and of no other; a
  file that cannot be read is reported with the message of the exception.
\<close>

theorem validator_first_failure:
  "validate_data_structure to_datetime (Inr df) =
     first_failure
       [check_non_empty df, check_columns df, check_companies df,
        check_monetary df, check_dates to_datetime df, check_rows df] \<and>
   validate_data_structure to_datetime (Inl msg) = (False, Some (ErrorReadingDataFile msg))"
proof -
  have "validate_data_structure to_datetime (Inr df) =
     first_failure
       [check_non_empty df, check_columns df, check_companies df,
        check_monetary df, check_dates to_datetime df, check_rows df]"
  proof (cases "df_len df = 0 \<or> required_columns - set (map fst df) \<noteq> {}")
    case True
    then show ?thesis
      by (auto simp: validate_data_structure_def check_non_empty_def check_columns_def Let_def)
  next
    case False
    then have req: "required_columns \<subseteq> fst ` set df" by auto
    with numeric_columns_required have "set numeric_columns \<subseteq> fst ` set df" by blast
    note cn = check_numeric_present[OF this]
    from req have "''Simbol'' \<in> fst ` set df" "''Report Date'' \<in> fst ` set df"
      by (auto simp: required_columns_def)
    then obtain sc dc where sc: "map_of df ''Simbol'' = Some sc"
      and dc: "map_of df ''Report Date'' = Some dc"
      by (metis domD dom_map_of_conv_image_fst)
    from False have ne: "df_len df \<noteq> 0" and full: "required_columns - set (map fst df) = {}"
      by auto
    show ?thesis
      unfolding validate_data_structure_def
      by (simp add: ne full sc dc cn Let_def check_non_empty_def check_columns_def
          check_companies_def check_monetary_def check_dates_def check_rows_def column_of_def
          not_less)
  qed
  then show ?thesis by (simp add: validate_data_structure_def)
qed

theorem validator_first_failure_witness:
  "validate_data_structure lenient_to_datetime (Inr four_row_table) = (True, None) \<and>
   validate_data_structure lenient_to_datetime (Inr two_row_table) =
     (False, Some InsufficientDataRecords)"
  using validator_first_failure[of lenient_to_datetime four_row_table]
    validator_first_failure[of lenient_to_datetime two_row_table]
  by (simp add: four_row_table_def two_row_table_def check_non_empty_def check_columns_def
      check_companies_def check_monetary_def check_dates_def check_rows_def column_of_def
      df_len_def required_columns_def valid_companies_def numeric_columns_def
      is_numeric_dtype_def lenient_to_datetime_def)

subsection \<open>Dataset Assembler: mounting and sorting\<close>














subsection \<open>Dataset Assembler: the Report Date of a file name\<close>

lemma is_digit_cases:
  "is_digit c \<longleftrightarrow>
     c = CHR ''0'' \<or> c = CHR ''1'' \<or> c = CHR ''2'' \<or> c = CHR ''3'' \<or> c = CHR ''4'' \<or>
     c = CHR ''5'' \<or> c = CHR ''6'' \<or> c = CHR ''7'' \<or> c = CHR ''8'' \<or> c = CHR ''9''"
  by (auto simp: is_digit_def)

lemma is_digit19_digit: "is_digit19 c \<Longrightarrow> is_digit c"
  by (auto simp: is_digit19_def is_digit_def)

lemma digit_val_le_1: "is_digit c \<Longrightarrow> digit_val c \<le> 1 \<Longrightarrow> c = CHR ''0'' \<or> c = CHR ''1''"
  unfolding is_digit_cases by (elim disjE) (simp_all add: digit_val_def)

lemma digit_val_le_2:
  "is_digit c \<Longrightarrow> digit_val c \<le> 2 \<Longrightarrow> c = CHR ''0'' \<or> c = CHR ''1'' \<or> c = CHR ''2''"
  unfolding is_digit_cases by (elim disjE) (simp_all add: digit_val_def)

lemma digit_val_ge_1: "is_digit c \<Longrightarrow> 1 \<le> digit_val c \<Longrightarrow> is_digit19 c"
  unfolding is_digit_cases by (elim disjE) (simp_all add: digit_val_def is_digit19_def)

lemma day_alts_two:
  assumes "is_digit d1" "is_digit d2"
    and "1 \<le> 10 * digit_val d1 + digit_val d2" "10 * digit_val d1 + digit_val d2 \<le> 31"
  shows "\<exists>more. day_alts (d1 # d2 # r) = ([d1, d2], r) # more"
proof -
  consider "d1 = CHR ''0''" | "d1 = CHR ''1'' \<or> d1 = CHR ''2''" | "d1 = CHR ''3''"
    | "d1 = CHR ''4'' \<or> d1 = CHR ''5'' \<or> d1 = CHR ''6'' \<or> d1 = CHR ''7'' \<or>
       d1 = CHR ''8'' \<or> d1 = CHR ''9''"
    using assms(1) unfolding is_digit_cases by blast
  then show ?thesis
  proof cases
    case 1
    with assms(3) have "1 \<le> digit_val d2" by (simp add: digit_val_def)
    with assms(2) have "is_digit19 d2" by (rule digit_val_ge_1)
    with 1 show ?thesis by (simp add: day_alts_def re1_def re2_def)
  next
    case 2
    with assms(2) show ?thesis by (auto simp: day_alts_def re1_def re2_def)
  next
    case 3
    with assms(4) have "digit_val d2 \<le> 1" by (simp add: digit_val_def)
    with assms(2) have "d2 = CHR ''0'' \<or> d2 = CHR ''1''" by (rule digit_val_le_1)
    with 3 show ?thesis by (auto simp: day_alts_def re1_def re2_def)
  next
    case 4
    with assms(4) show ?thesis by (auto simp: digit_val_def)
  qed
qed

lemma month_alts_two:
  assumes "is_digit m1" "is_digit m2"
    and "1 \<le> 10 * digit_val m1 + digit_val m2" "10 * digit_val m1 + digit_val m2 \<le> 12"
  shows "\<exists>more. month_alts (m1 # m2 # r) = ([m1, m2], r) # more"
proof -
  consider "m1 = CHR ''0''" | "m1 = CHR ''1''"
    | "m1 = CHR ''2'' \<or> m1 = CHR ''3'' \<or> m1 = CHR ''4'' \<or> m1 = CHR ''5'' \<or> m1 = CHR ''6'' \<or>
       m1 = CHR ''7'' \<or> m1 = CHR ''8'' \<or> m1 = CHR ''9''"
    using assms(1) unfolding is_digit_cases by blast
  then show ?thesis
  proof cases
    case 1
    with assms(3) have "1 \<le> digit_val m2" by (simp add: digit_val_def)
    with assms(2) have "is_digit19 m2" by (rule digit_val_ge_1)
    with 1 show ?thesis by (simp add: month_alts_def re1_def re2_def)
  next
    case 2
    with assms(4) have "digit_val m2 \<le> 2" by (simp add: digit_val_def)
    with assms(2) have "m2 = CHR ''0'' \<or> m2 = CHR ''1'' \<or> m2 = CHR ''2''" by (rule digit_val_le_2)
    with 2 show ?thesis by (auto simp: month_alts_def re1_def re2_def)
  next
    case 3
    with assms(4) show ?thesis by (auto simp: digit_val_def)
  qed
qed

lemma year_alts_four:
  "is_digit a \<Longrightarrow> is_digit b \<Longrightarrow> is_digit c \<Longrightarrow> is_digit d \<Longrightarrow>
     year_alts (a # b # c # d # r) = [([a, b, c, d], r)]"
  by (simp add: year_alts_def)

lemma regex_match_eight:
  assumes "is_digit d1" "is_digit d2" "is_digit m1" "is_digit m2"
    and "is_digit y1" "is_digit y2" "is_digit y3" "is_digit y4"
    and "1 \<le> 10 * digit_val d1 + digit_val d2" "10 * digit_val d1 + digit_val d2 \<le> 31"
    and "1 \<le> 10 * digit_val m1 + digit_val m2" "10 * digit_val m1 + digit_val m2 \<le> 12"
  shows "\<exists>more. regex_match [d1, d2, m1, m2, y1, y2, y3, y4] =
           ([d1, d2], [m1, m2], [y1, y2, y3, y4], []) # more"
proof -
  from day_alts_two[OF assms(1,2,9,10)] obtain dmore
    where d: "day_alts [d1, d2, m1, m2, y1, y2, y3, y4] = ([d1, d2], [m1, m2, y1, y2, y3, y4]) # dmore"
    by blast
  from month_alts_two[OF assms(3,4,11,12)] obtain mmore
    where m: "month_alts [m1, m2, y1, y2, y3, y4] = ([m1, m2], [y1, y2, y3, y4]) # mmore"
    by blast
  have y: "year_alts [y1, y2, y3, y4] = [([y1, y2, y3, y4], [])]"
    using assms(5-8) by (rule year_alts_four)
  show ?thesis by (simp add: regex_match_def d m y)
qed

lemma py_int_two: "is_digit a \<Longrightarrow> is_digit b \<Longrightarrow> py_int [a, b] = 10 * digit_val a + digit_val b"
  by (simp add: py_int_def)

lemma py_int_four:
  "is_digit a \<Longrightarrow> is_digit b \<Longrightarrow> is_digit c \<Longrightarrow> is_digit d \<Longrightarrow>
     py_int [a, b, c, d] = 1000 * digit_val a + 100 * digit_val b + 10 * digit_val c + digit_val d"
  by (simp add: py_int_def)

lemma is_digit_not_dot: "is_digit c \<Longrightarrow> c \<noteq> CHR ''.''"
  by (auto simp: is_digit_def)

lemma str_replace_suffix_only:
  "c0 \<notin> set s \<Longrightarrow> str_replace (c0 # rest) [] (s @ c0 # rest) = s"
proof (induction s)
  case Nil
  show ?case by simp
next
  case (Cons x xs)
  then have "x \<noteq> c0" and ih: "str_replace (c0 # rest) [] (xs @ c0 # rest) = xs" by auto
  then show ?case by simp
qed

lemma strip_pdf_eight:
  assumes "is_digit d1" "is_digit d2" "is_digit m1" "is_digit m2"
    and "is_digit y1" "is_digit y2" "is_digit y3" "is_digit y4"
  shows "str_replace ''.pdf'' '''' ([d1, d2, m1, m2, y1, y2, y3, y4] @ ''.pdf'')
           = [d1, d2, m1, m2, y1, y2, y3, y4]"
proof -
  have "CHR ''.'' \<notin> set [d1, d2, m1, m2, y1, y2, y3, y4]"
    using assms is_digit_not_dot by auto
  then show ?thesis by (rule str_replace_suffix_only)
qed

lemma strptime_eight:
  assumes "is_digit d1" "is_digit d2" "is_digit m1" "is_digit m2"
    and "is_digit y1" "is_digit y2" "is_digit y3" "is_digit y4"
    and "day = 10 * digit_val d1 + digit_val d2"
    and "month = 10 * digit_val m1 + digit_val m2"
    and "year = 1000 * digit_val y1 + 100 * digit_val y2 + 10 * digit_val y3 + digit_val y4"
    and "1 \<le> year" "1 \<le> month" "month \<le> 12" "1 \<le> day" "day \<le> days_in_month year month"
  shows "strptime [d1, d2, m1, m2, y1, y2, y3, y4] = Inr (year, month, day)"
proof -
  have "days_in_month year month \<le> 31" by (simp add: days_in_month_def)
  with assms(16) have d31: "day \<le> 31" by simp
  from regex_match_eight[OF assms(1-8)] assms(9,10,13,14,15) d31
  obtain more where rm: "regex_match [d1, d2, m1, m2, y1, y2, y3, y4] =
           ([d1, d2], [m1, m2], [y1, y2, y3, y4], []) # more"
    by auto
  have "py_int [d1, d2] = day" "py_int [m1, m2] = month" "py_int [y1, y2, y3, y4] = year"
    using assms(1-11) by (simp_all add: py_int_two py_int_four)
  with rm assms(12,16) show ?thesis
    by (simp add: strptime_def not_less)
qed

lemma re1_mem: "(t, r) \<in> set (re1 p s) \<Longrightarrow> \<exists>c. t = [c] \<and> p c \<and> s = t @ r"
  by (auto simp: re1_def split: list.splits if_splits)

lemma re2_mem: "(t, r) \<in> set (re2 p q s) \<Longrightarrow> \<exists>a b. t = [a, b] \<and> p a \<and> q b \<and> s = t @ r"
  by (auto simp: re2_def split: list.splits if_splits)

lemma day_alts_mem:
  assumes "(t, r) \<in> set (day_alts s)"
  shows "s = t @ r \<and> t \<noteq> [] \<and> length t \<le> 2 \<and>
         (is_digit (hd t) \<or> hd t = CHR '' '') \<and> (\<forall>c \<in> set (tl t). is_digit c)"
  using assms unfolding day_alts_def
  by (auto dest!: re1_mem re2_mem simp: is_digit19_def is_digit_def)

lemma month_alts_mem:
  assumes "(t, r) \<in> set (month_alts s)"
  shows "s = t @ r \<and> t \<noteq> [] \<and> length t \<le> 2 \<and> (\<forall>c \<in> set t. is_digit c)"
  using assms unfolding month_alts_def
  by (auto dest!: re1_mem re2_mem simp: is_digit19_def is_digit_def)

lemma year_alts_mem:
  assumes "(t, r) \<in> set (year_alts s)"
  shows "s = t @ r \<and> length t = 4 \<and> (\<forall>c \<in> set t. is_digit c)"
  using assms unfolding year_alts_def
  by (auto split: list.splits if_splits)

lemma regex_match_mem:
  assumes "(d, m, y, r) \<in> set (regex_match s)"
  shows "s = d @ m @ y @ r \<and> d \<noteq> [] \<and> length d \<le> 2 \<and> m \<noteq> [] \<and> length m \<le> 2 \<and>
         length y = 4 \<and> (is_digit (hd d) \<or> hd d = CHR '' '') \<and>
         (\<forall>c \<in> set (tl d @ m @ y). is_digit c)"
proof -
  from assms obtain r1 r2 where d: "(d, r1) \<in> set (day_alts s)"
    and m: "(m, r2) \<in> set (month_alts r1)" and y: "(y, r) \<in> set (year_alts r2)"
    by (auto simp: regex_match_def)
  from day_alts_mem[OF d] month_alts_mem[OF m] year_alts_mem[OF y]
  show ?thesis by auto
qed

lemma strptime_Inr_shape:
  assumes "strptime s = Inr dt"
  shows "6 \<le> length s \<and> length s \<le> 8 \<and> (is_digit (hd s) \<or> hd s = CHR '' '') \<and>
         (\<forall>c \<in> set (tl s). is_digit c)"
proof -
  from assms obtain d m y more where rm: "regex_match s = (d, m, y, []) # more"
    by (auto simp: strptime_def split: list.splits if_splits)
  then have "(d, m, y, []) \<in> set (regex_match s)" by simp
  from regex_match_mem[OF this]
  have s: "s = d @ m @ y" and dne: "d \<noteq> []" and ld: "length d \<le> 2" and mne: "m \<noteq> []"
    and lm: "length m \<le> 2" and ly: "length y = 4"
    and h: "is_digit (hd d) \<or> hd d = CHR '' ''"
    and t: "\<forall>c \<in> set (tl d @ m @ y). is_digit c"
    by auto
  from dne have "hd s = hd d" "tl s = tl d @ m @ y" unfolding s by simp_all
  moreover from dne mne have "1 \<le> length d" "1 \<le> length m"
    by (simp_all add: Suc_leI)
  ultimately show ?thesis using ld lm ly h t unfolding s by auto
qed

text \<open>
  C2 as stated fails: a file name without the suffix \<open>.pdf\<close> derives a date.
\<close>

theorem date_derived_without_suffix:
  "\<not> suffix ''.pdf'' ''30062022'' \<and> derive_report_date ''30062022'' = Inr (2022, 6, 30)"
  by (simp add: suffix_def derive_report_date_def strptime_def regex_match_def day_alts_def
      month_alts_def year_alts_def re1_def re2_def is_digit_def is_digit19_def py_int_def
      digit_val_def days_in_month_def is_leap_def)

text \<open>
  C2, amended. The file name \<open>30062022.pdf\<close> gives 2022-06-30 and \<open>31122024.pdf\<close>
  gives 2024-12-31; every name made of the eight digits, day then month then year, of
  a calendar date of year 1 or later, followed by \<open>.pdf\<close>, gives that date. The
  derivation deletes every \<open>.pdf\<close> of the name and reads what is left: when it
  succeeds, what is left has 6 to 8 characters, all of them digits except that the
  first may be a blank. So it fails on every name that leaves a non-digit in another
  place, and the suffix is not required.
\<close>

theorem report_date_derivation:
  "derive_report_date ''30062022.pdf'' = Inr (2022, 6, 30) \<and>
   derive_report_date ''31122024.pdf'' = Inr (2024, 12, 31) \<and>
   (is_digit d1 \<and> is_digit d2 \<and> is_digit m1 \<and> is_digit m2 \<and>
    is_digit y1 \<and> is_digit y2 \<and> is_digit y3 \<and> is_digit y4 \<and>
    day = 10 * digit_val d1 + digit_val d2 \<and>
    month = 10 * digit_val m1 + digit_val m2 \<and>
    year = 1000 * digit_val y1 + 100 * digit_val y2 + 10 * digit_val y3 + digit_val y4 \<and>
    1 \<le> year \<and> 1 \<le> month \<and> month \<le> 12 \<and> 1 \<le> day \<and> day \<le> days_in_month year month
    \<longrightarrow> derive_report_date ([d1, d2, m1, m2, y1, y2, y3, y4] @ ''.pdf'') = Inr (year, month, day)) \<and>
   (derive_report_date name = Inr dt \<longrightarrow>
      6 \<le> length (str_replace ''.pdf'' '''' name) \<and>
      length (str_replace ''.pdf'' '''' name) \<le> 8 \<and>
      (is_digit (hd (str_replace ''.pdf'' '''' name)) \<or>
       hd (str_replace ''.pdf'' '''' name) = CHR '' '') \<and>
      (\<forall>c \<in> set (tl (str_replace ''.pdf'' '''' name)). is_digit c))"
proof -
  have a: "derive_report_date ''30062022.pdf'' = Inr (2022, 6, 30)"
    by (simp add: derive_report_date_def strptime_def regex_match_def day_alts_def
      month_alts_def year_alts_def re1_def re2_def is_digit_def is_digit19_def py_int_def
      digit_val_def days_in_month_def is_leap_def)
  have b: "derive_report_date ''31122024.pdf'' = Inr (2024, 12, 31)"
    by (simp add: derive_report_date_def strptime_def regex_match_def day_alts_def
      month_alts_def year_alts_def re1_def re2_def is_digit_def is_digit19_def py_int_def
      digit_val_def days_in_month_def is_leap_def)
  have c: "derive_report_date ([d1, d2, m1, m2, y1, y2, y3, y4] @ ''.pdf'') = Inr (year, month, day)"
    if "is_digit d1" "is_digit d2" "is_digit m1" "is_digit m2"
      "is_digit y1" "is_digit y2" "is_digit y3" "is_digit y4"
      "day = 10 * digit_val d1 + digit_val d2"
      "month = 10 * digit_val m1 + digit_val m2"
      "year = 1000 * digit_val y1 + 100 * digit_val y2 + 10 * digit_val y3 + digit_val y4"
      "1 \<le> year" "1 \<le> month" "month \<le> 12" "1 \<le> day" "day \<le> days_in_month year month"
    unfolding derive_report_date_def strip_pdf_eight[OF that(1-8)]
    using that by (rule strptime_eight)
  have d: "6 \<le> length (str_replace ''.pdf'' '''' name) \<and>
      length (str_replace ''.pdf'' '''' name) \<le> 8 \<and>
      (is_digit (hd (str_replace ''.pdf'' '''' name)) \<or>
       hd (str_replace ''.pdf'' '''' name) = CHR '' '') \<and>
      (\<forall>c \<in> set (tl (str_replace ''.pdf'' '''' name)). is_digit c)"
    if "derive_report_date name = Inr dt"
    using that unfolding derive_report_date_def by (rule strptime_Inr_shape)
  from a b c d show ?thesis by blast
qed

theorem report_date_derivation_witness:
  "derive_report_date ''29022024.pdf'' = Inr (2024, 2, 29) \<and>
   length (str_replace ''.pdf'' '''' ''29022024.pdf'') = 8 \<and>
   derive_report_date ''30-06-2022.pdf'' \<noteq> Inr (2022, 6, 30)"
proof -
  have h: "is_digit CHR ''2'' \<and> is_digit CHR ''9'' \<and> is_digit CHR ''0'' \<and> is_digit CHR ''2'' \<and>
    is_digit CHR ''2'' \<and> is_digit CHR ''0'' \<and> is_digit CHR ''2'' \<and> is_digit CHR ''4'' \<and>
    (29::nat) = 10 * digit_val CHR ''2'' + digit_val CHR ''9'' \<and>
    (2::nat) = 10 * digit_val CHR ''0'' + digit_val CHR ''2'' \<and>
    (2024::nat) = 1000 * digit_val CHR ''2'' + 100 * digit_val CHR ''0'' +
       10 * digit_val CHR ''2'' + digit_val CHR ''4'' \<and>
    (1::nat) \<le> 2024 \<and> (1::nat) \<le> 2 \<and> (2::nat) \<le> 12 \<and> (1::nat) \<le> 29 \<and>
    29 \<le> days_in_month 2024 2"
    by (simp add: is_digit_def digit_val_def days_in_month_def is_leap_def)
  note r = report_date_derivation[of "CHR ''2''" "CHR ''9''" "CHR ''0''" "CHR ''2''"
      "CHR ''2''" "CHR ''0''" "CHR ''2''" "CHR ''4''" 29 2 2024 "''30-06-2022.pdf''" "(2022, 6, 30)"]
  from r h have a: "derive_report_date ''29022024.pdf'' = Inr (2024, 2, 29)" by simp
  have "\<not> length (str_replace ''.pdf'' '''' ''30-06-2022.pdf'') \<le> 8" by simp
  with r have b: "derive_report_date ''30-06-2022.pdf'' \<noteq> Inr (2022, 6, 30)" by blast
  from a b show ?thesis by simp
qed

end
